theory Spec2Isabelle
  imports Main "HOL-Library.Sublist" "HOL-Library.AList"
begin

section \<open>Strings of the script\<close>

text \<open>
  A Python \<open>str\<close> is modelled as a \<open>string\<close> (a list of 8-bit characters), each
  character read as the code point of the same number (0 to 255). On these code points
  \<open>str.isspace\<close> and the regular expression class \<open>\\s\<close> hold for 9 to 13, 28 to 32,
  133 and 160, the class \<open>\\d\<close> holds for the ten ASCII digits, and \<open>str.splitlines\<close>
  breaks at 10, 11, 12, 13 (13 followed by 10 being one break), 28, 29, 30 and 133.
  \<open>int\<close> of a digit string is its decimal value (the interpreter's configurable limit
  on the length of such a string is not part of the model).
\<close>

definition LF :: char where
  "LF = CHR 0x0A"

definition CR :: char where
  "CR = CHR 0x0D"

definition isspace :: "char \<Rightarrow> bool" where
  "isspace c = (c \<in> set [CHR 0x09, CHR 0x0A, CHR 0x0B, CHR 0x0C, CHR 0x0D,
                          CHR 0x1C, CHR 0x1D, CHR 0x1E, CHR 0x1F, CHR 0x20,
                          CHR 0x85, CHR 0xA0])"

definition isdigit :: "char \<Rightarrow> bool" where
  "isdigit c = (c \<in> set ''0123456789'')"

definition is_linebreak :: "char \<Rightarrow> bool" where
  "is_linebreak c = (c \<in> set [CHR 0x0A, CHR 0x0B, CHR 0x0C, CHR 0x0D,
                               CHR 0x1C, CHR 0x1D, CHR 0x1E, CHR 0x85])"

text \<open>\<open>s.strip()\<close>: leading and trailing whitespace removed.\<close>

definition strip :: "string \<Rightarrow> string" where
  "strip s = rev (dropWhile isspace (rev (dropWhile isspace s)))"

text \<open>\<open>s.startswith(p)\<close>.\<close>

definition startswith :: "string \<Rightarrow> string \<Rightarrow> bool" where
  "startswith s p = prefix p s"

text \<open>
  \<open>s.find(sub)\<close> as an option: the least index at which \<open>sub\<close> occurs in \<open>s\<close>.
  \<open>s.index(sub)\<close> raises ValueError where this is \<open>None\<close>, and \<open>sub in s\<close> holds
  where it is not.
\<close>

fun str_find :: "string \<Rightarrow> string \<Rightarrow> nat option" where
  "str_find [] sub = (if sub = [] then Some 0 else None)"
| "str_find (c # s) sub =
     (if prefix sub (c # s) then Some 0 else map_option Suc (str_find s sub))"

definition str_in :: "string \<Rightarrow> string \<Rightarrow> bool" where
  "str_in sub s = (str_find s sub \<noteq> None)"

text \<open>\<open>int(d)\<close> for a string of ASCII digits.\<close>

definition digit_val :: "char \<Rightarrow> int" where
  "digit_val c = int (of_char c) - 48"

definition int_of_digits :: "string \<Rightarrow> int" where
  "int_of_digits d = foldl (\<lambda>n c. 10 * n + digit_val c) 0 d"

text \<open>
  \<open>s.splitlines()\<close>: \<open>cur\<close> is the line being read. A line break ends the line (also an
  empty one); the end of the text ends a line only if it is not empty.
\<close>

fun splitlines_from :: "string \<Rightarrow> string \<Rightarrow> string list" where
  "splitlines_from cur [] = (if cur = [] then [] else [cur])"
| "splitlines_from cur [c] =
     (if is_linebreak c then [cur] else [cur @ [c]])"
| "splitlines_from cur (c # d # s) =
     (if c = CR \<and> d = LF then cur # splitlines_from [] s
      else if is_linebreak c then cur # splitlines_from [] (d # s)
      else splitlines_from (cur @ [c]) (d # s))"

definition splitlines :: "string \<Rightarrow> string list" where
  "splitlines s = splitlines_from [] s"

section \<open>Pieces of the two regular expressions\<close>

text \<open>A literal: the rest of the text after it, if the text starts with it.\<close>

fun lit :: "string \<Rightarrow> string \<Rightarrow> string option" where
  "lit [] s = Some s"
| "lit (p # ps) [] = None"
| "lit (p # ps) (c # s) = (if p = c then lit ps s else None)"

text \<open>
  \<open>\\d+\<close> followed by a literal that is not a digit: the only match that the rest of the
  pattern can extend is the longest run of digits, which must not be empty. The result is
  the run and the rest of the text.
\<close>

definition digits1 :: "string \<Rightarrow> (string \<times> string) option" where
  "digits1 s =
     (let d = takeWhile isdigit s
      in if d = [] then None else Some (d, dropWhile isdigit s))"

text \<open>
  The hunk header pattern \<open>@@ -\\d+,\\d+ \\+(\\d+),\\d+ @@\<close>, matched at the start of the line
  by \<open>re.match\<close> (anything may follow): the digits of group 1.
\<close>

definition hunk_match :: "string \<Rightarrow> string option" where
  "hunk_match line =
     (case lit ''@@ -'' line of None \<Rightarrow> None | Some s1 \<Rightarrow>
      case digits1 s1 of None \<Rightarrow> None | Some (old_start, s2) \<Rightarrow>
      case lit '','' s2 of None \<Rightarrow> None | Some s3 \<Rightarrow>
      case digits1 s3 of None \<Rightarrow> None | Some (old_count, s4) \<Rightarrow>
      case lit '' +'' s4 of None \<Rightarrow> None | Some s5 \<Rightarrow>
      case digits1 s5 of None \<Rightarrow> None | Some (new_start, s6) \<Rightarrow>
      case lit '','' s6 of None \<Rightarrow> None | Some s7 \<Rightarrow>
      case digits1 s7 of None \<Rightarrow> None | Some (new_count, s8) \<Rightarrow>
      case lit '' @@'' s8 of None \<Rightarrow> None | Some s9 \<Rightarrow> Some new_start)"

text \<open>
  The log pattern \<open>^(.*?):(\\d+):(?:\\d+:)?\\s*(.*)$\<close>, from its end to its start.
  \<open>(.*)$\<close>: characters other than the line feed up to the end of the text, or up to a
  line feed that is the last character.
\<close>

definition rest_dollar :: "string \<Rightarrow> bool" where
  "rest_dollar s = (dropWhile (\<lambda>c. c \<noteq> LF) s \<in> set [[], [LF]])"

text \<open>\<open>\\s*(.*)$\<close>: some run of whitespace, then the above.\<close>

fun space_rest :: "string \<Rightarrow> bool" where
  "space_rest [] = True"
| "space_rest (c # s) = (rest_dollar (c # s) \<or> (isspace c \<and> space_rest s))"

text \<open>\<open>(?:\\d+:)?\\s*(.*)$\<close>: with the column, or else without it.\<close>

definition col_space_rest :: "string \<Rightarrow> bool" where
  "col_space_rest s =
     ((case digits1 s of None \<Rightarrow> False | Some (col, s1) \<Rightarrow>
         (case lit '':'' s1 of None \<Rightarrow> False | Some s2 \<Rightarrow> space_rest s2))
      \<or> space_rest s)"

text \<open>\<open>:(\\d+):(?:\\d+:)?\\s*(.*)$\<close>: the digits of group 2, if the text matches.\<close>

definition after_path :: "string \<Rightarrow> string option" where
  "after_path s =
     (case lit '':'' s of None \<Rightarrow> None | Some s1 \<Rightarrow>
      case digits1 s1 of None \<Rightarrow> None | Some (line_num, s2) \<Rightarrow>
      case lit '':'' s2 of None \<Rightarrow> None | Some s3 \<Rightarrow>
      if col_space_rest s3 then Some line_num else None)"

text \<open>
  The whole pattern under \<open>log_pattern.match\<close>. The lazy group 1 is the shortest prefix,
  free of line feeds, after which the rest of the pattern matches. The result is groups
  1 and 2; group 3, the message, is never read by the script.
\<close>

fun log_pattern_match :: "string \<Rightarrow> (string \<times> string) option" where
  "log_pattern_match [] = None"
| "log_pattern_match (c # s) =
     (case after_path (c # s) of
        Some line_num \<Rightarrow> Some ([], line_num)
      | None \<Rightarrow>
          if c = LF then None
          else (case log_pattern_match s of
                  None \<Rightarrow> None
                | Some (file_path, line_num) \<Rightarrow> Some (c # file_path, line_num)))"

section \<open>The diff extractor\<close>

text \<open>
  \<open>Dict[str, Set[int]]\<close>: the keys in insertion order, each with its set. Assigning to a
  key that exists replaces its value in place, as \<open>AList.update\<close> does.
\<close>

type_synonym changed_line_set = "(string \<times> int set) list"

text \<open>
  The state of the loop of \<open>get_changed_lines\<close>: the mapping, \<open>current_file\<close>
  (\<open>None\<close> at first) and \<open>current_line\<close>.
\<close>

type_synonym diff_state = "changed_line_set \<times> string option \<times> int"

text \<open>The truth value of \<open>current_file\<close>: neither \<open>None\<close> nor the empty string.\<close>

fun truthy :: "string option \<Rightarrow> bool" where
  "truthy None = False"
| "truthy (Some f) = (f \<noteq> [])"

text \<open>
  One turn of the loop. In the third branch \<open>current_file\<close> is a key of the mapping (it
  is set only together with its key), so the lookup of the source cannot raise there.
\<close>

fun diff_step :: "diff_state \<Rightarrow> string \<Rightarrow> diff_state" where
  "diff_step (changed_lines, current_file, current_line) line =
     (if startswith line ''+++ b/'' then
        (let f = strip (drop 6 line)
         in (AList.update f {} changed_lines, Some f, 0))
      else if startswith line ''@@'' then
        (case hunk_match line of
           Some new_start \<Rightarrow>
             if truthy current_file
             then (changed_lines, current_file, int_of_digits new_start)
             else (changed_lines, current_file, current_line)
         | None \<Rightarrow> (changed_lines, current_file, current_line))
      else if startswith line ''+'' \<and> truthy current_file \<and> \<not> startswith line ''+++'' then
        (AList.map_entry (the current_file) (insert current_line) changed_lines,
         current_file, current_line + 1)
      else if startswith line '' '' \<or> startswith line ''-'' then
        (changed_lines, current_file, current_line + 1)
      else (changed_lines, current_file, current_line))"

text \<open>
  \<open>get_changed_lines\<close> from the point where \<open>diff_output\<close>, the standard output of
  \<open>git diff --staged\<close>, is at hand.
\<close>

definition get_changed_lines :: "string \<Rightarrow> changed_line_set" where
  "get_changed_lines diff_output =
     fst (foldl diff_step ([], None, 0) (splitlines diff_output))"

section \<open>The log filter\<close>

datatype error = ValueError

text \<open>
  The body of the loop of \<open>filter_logs\<close> for one line: whether the line is appended to
  \<open>filtered\<close>, or the exception that \<open>file_path.index\<close> raises.
\<close>

definition log_relevant :: "changed_line_set \<Rightarrow> string \<Rightarrow> error + bool" where
  "log_relevant changed_lines log =
     (case log_pattern_match log of
        Some (file_path, line_num) \<Rightarrow>
          (let file_path = strip file_path
           in case str_find file_path ''src/'' of
                None \<Rightarrow> Inl ValueError
              | Some i \<Rightarrow>
                  (let file_path = drop i file_path;
                       line_num = int_of_digits line_num
                   in case map_of changed_lines file_path of
                        None \<Rightarrow> Inr False
                      | Some ns \<Rightarrow> Inr (line_num \<in> ns)))
      | None \<Rightarrow> Inr (list_ex (\<lambda>file_path. str_in file_path log) (map fst changed_lines)))"

fun filter_loop :: "changed_line_set \<Rightarrow> string list \<Rightarrow> string list \<Rightarrow> error + string list" where
  "filter_loop changed_lines filtered [] = Inr filtered"
| "filter_loop changed_lines filtered (log # logs) =
     (case log_relevant changed_lines log of
        Inl e \<Rightarrow> Inl e
      | Inr True \<Rightarrow> filter_loop changed_lines (filtered @ [log]) logs
      | Inr False \<Rightarrow> filter_loop changed_lines filtered logs)"

definition filter_logs :: "string list \<Rightarrow> changed_line_set \<Rightarrow> error + string list" where
  "filter_logs logs changed_lines =
     (if changed_lines = [] then Inr [] else filter_loop changed_lines [] logs)"

section \<open>The process\<close>

text \<open>
  What a run leaves behind: the strings printed to standard output and to standard error,
  one per call of \<open>print\<close>, and how the process ends: \<open>sys.exit\<close> with a status, the
  end of \<open>main\<close> (status 0), or an exception that nothing catches.
\<close>

datatype outcome = Exit int | Uncaught error

record run =
  printed :: "string list"
  errors :: "string list"
  ending :: outcome

text \<open>\<open>"\\n".join(xs)\<close>.\<close>

fun join_lines :: "string list \<Rightarrow> string" where
  "join_lines [] = []"
| "join_lines [x] = x"
| "join_lines (x # y # xs) = x @ [LF] @ join_lines (y # xs)"

text \<open>
  \<open>main\<close>, with the two things it reads from outside as parameters: \<open>git\<close> is the
  result of \<open>git diff --staged\<close> (\<open>Inr\<close> its standard output, \<open>Inl\<close> the text of the
  CalledProcessError), \<open>output_path\<close> is the expanded path of the saved log and
  \<open>log_file\<close> is what \<open>f.read()\<close> returns for it (\<open>None\<close> where the file is not
  found). The traceback of an uncaught exception is not listed among the errors.
\<close>

definition main :: "string + string \<Rightarrow> string \<Rightarrow> string option \<Rightarrow> run" where
  "main git output_path log_file =
     (let banner = [''======== Getting changed lines =============''] in
      case git of
        Inl e \<Rightarrow>
          \<lparr>printed = banner, errors = [''Error getting git diff: '' @ e], ending = Exit 1\<rparr>
      | Inr diff_output \<Rightarrow>
          (let changed_lines = get_changed_lines diff_output in
           if changed_lines = [] then
             \<lparr>printed = banner,
              errors = [''No staged files or changed lines to process.''],
              ending = Exit 0\<rparr>
           else
             (case log_file of
                None \<Rightarrow>
                  \<lparr>printed = banner,
                   errors = [''Log file '' @ output_path @ '' not found.''],
                   ending = Exit 1\<rparr>
              | Some text \<Rightarrow>
                  (case filter_logs (splitlines text) changed_lines of
                     Inl e \<Rightarrow> \<lparr>printed = banner, errors = [], ending = Uncaught e\<rparr>
                   | Inr filtered_logs \<Rightarrow>
                       \<lparr>printed = banner @ [''======== Filtered Logs =============''] @
                          [if filtered_logs \<noteq> [] then join_lines filtered_logs
                           else ''No logs found for changed lines in staged files.''],
                        errors = [], ending = Exit 0\<rparr>))))"

section \<open>The numbering of the unified diff format\<close>

text \<open>
  A second definition, written from the specification and not from the script, to compare
  the extractor with: the numbers that the lines of a hunk have in the new version of the
  file. The hunk starts at \<open>new_start\<close>; a context line and an added line take the next
  number of the new file each, and a removed line, which the new file does not have,
  takes none.
\<close>

datatype line_kind = Added | Context

fun spec_new_file_lines :: "int \<Rightarrow> string list \<Rightarrow> (int \<times> line_kind) list" where
  "spec_new_file_lines n [] = []"
| "spec_new_file_lines n (l # ls) =
     (if startswith l ''+'' then (n, Added) # spec_new_file_lines (n + 1) ls
      else if startswith l '' '' then (n, Context) # spec_new_file_lines (n + 1) ls
      else spec_new_file_lines n ls)"

section \<open>Facts about the loop of the extractor\<close>

text \<open>
  Whenever \<open>current_file\<close> is set it is a key of the mapping, so the lookup
  \<open>changed_lines[current_file]\<close> of the third branch never raises KeyError.
\<close>

lemma diff_step_current_file_key:
  assumes "\<And>f. current_file = Some f \<Longrightarrow> f \<in> fst ` set changed_lines"
    and "diff_step (changed_lines, current_file, current_line) line = (cl', Some f', n')"
  shows "f' \<in> fst ` set cl'"
proof (cases "startswith line ''+++ b/''")
  case True
  with assms(2) show ?thesis
    by (auto simp: Let_def dom_update)
next
  case False
  with assms(2) have cf: "current_file = Some f'"
    by (auto split: if_splits option.splits)
  from False assms(2) have
    "cl' = changed_lines \<or> cl' = AList.map_entry f' (insert current_line) changed_lines"
    by (auto simp: cf split: if_splits option.splits)
  then have "fst ` set cl' = fst ` set changed_lines"
    using dom_map_entry [of f' "insert current_line" changed_lines] by auto
  with assms(1) [OF cf] show ?thesis
    by simp
qed

lemma foldl_diff_step_current_file_key:
  assumes "foldl diff_step ([], None, 0) ls = (cl, Some f, n)"
  shows "f \<in> fst ` set cl"
  using assms
proof (induction ls arbitrary: cl f n rule: rev_induct)
  case Nil
  then show ?case by simp
next
  case (snoc l ls)
  obtain cl0 cf0 n0 where s: "foldl diff_step ([], None, 0) ls = (cl0, cf0, n0)"
    by (cases "foldl diff_step ([], None, 0) ls") auto
  have k: "\<And>g. cf0 = Some g \<Longrightarrow> g \<in> fst ` set cl0"
    using snoc.IH s by simp
  have d: "diff_step (cl0, cf0, n0) l = (cl, Some f, n)"
    using snoc.prems s by simp
  from k d show ?case
    by (rule diff_step_current_file_key)
qed

section \<open>Facts about the loop of the filter\<close>

lemma str_in_iff: "str_in sub s \<longleftrightarrow> (\<exists>ps ss. s = ps @ sub @ ss)"
proof -
  have "str_find s sub \<noteq> None \<longleftrightarrow> sublist sub s"
    by (induction s) (auto simp: sublist_Cons_right)
  then show ?thesis
    by (simp add: str_in_def sublist_def)
qed

text \<open>The loop returns exactly when no line raises, and then it has kept the relevant lines.\<close>

lemma filter_loop_Inr:
  "filter_loop cl acc logs = Inr out \<longleftrightarrow>
     (\<forall>l \<in> set logs. \<exists>b. log_relevant cl l = Inr b) \<and>
     out = acc @ filter (\<lambda>l. log_relevant cl l = Inr True) logs"
  by (induction logs arbitrary: acc) (auto split: sum.splits bool.splits)

lemma filter_loop_Inl:
  "filter_loop cl acc logs = Inl e \<longleftrightarrow> (\<exists>l \<in> set logs. log_relevant cl l = Inl e)"
proof (induction logs arbitrary: acc)
  case Nil
  then show ?case by simp
next
  case (Cons l logs)
  show ?case
  proof (cases "log_relevant cl l")
    case (Inl e')
    then show ?thesis by (cases e; cases e') auto
  next
    case (Inr b)
    then show ?thesis using Cons.IH by (cases b) auto
  qed
qed

lemma log_relevant_structured:
  assumes "log_pattern_match log = Some (path, num)"
    and "str_find (strip path) ''src/'' = Some i"
  shows "log_relevant cl log =
     Inr (\<exists>ns. map_of cl (drop i (strip path)) = Some ns \<and> int_of_digits num \<in> ns)"
  using assms by (simp add: log_relevant_def split: option.splits)

lemma log_relevant_no_marker:
  assumes "log_pattern_match log = Some (path, num)"
    and "str_find (strip path) ''src/'' = None"
  shows "log_relevant cl log = Inl ValueError"
  using assms by (simp add: log_relevant_def)

lemma log_relevant_unstructured:
  assumes "log_pattern_match log = None"
  shows "log_relevant cl log = Inr (\<exists>k \<in> fst ` set cl. \<exists>ps ss. log = ps @ k @ ss)"
  using assms by (auto simp: log_relevant_def list_ex_iff str_in_iff)

lemma filter_logs_Inr:
  assumes "filter_logs logs cl = Inr out"
  shows "out = (if cl = [] then [] else filter (\<lambda>l. log_relevant cl l = Inr True) logs)"
  using assms by (auto simp: filter_logs_def filter_loop_Inr split: if_splits)

lemma filter_logs_mem:
  assumes "filter_logs logs cl = Inr out" and "log \<in> set logs" and "cl \<noteq> []"
  shows "log \<in> set out \<longleftrightarrow> log_relevant cl log = Inr True"
  using assms by (auto simp: filter_logs_def filter_loop_Inr split: if_splits)

section \<open>The diff extractor against the numbering of the diff\<close>

text \<open>
  Claim C1: every line number that \<open>get_changed_lines\<close> records for a file is the
  number of a line that the diff adds to the new version of the file, never that of a
  context line or of a removed line. The script does not keep this. For a staged diff
  whose only hunk, starting at line 1 of the new file, removes one line, adds one and
  keeps one, the script records line 2 for the file, while in the new file the added
  line is line 1 and line 2 is the context line: the removed line has moved the counter.
\<close>

theorem get_changed_lines_after_removed_line:
  "get_changed_lines (join_lines
     [''diff --git a/src/a.py b/src/a.py'',
      ''index 3b18e51..a5bce3f 100644'',
      ''--- a/src/a.py'',
      ''+++ b/src/a.py'',
      ''@@ -1,2 +1,2 @@'',
      ''-old'',
      ''+new'',
      '' ctx'']) = [(''src/a.py'', {2})] \<and>
   spec_new_file_lines 1 [''-old'', ''+new'', '' ctx''] = [(1, Added), (2, Context)]"
  by code_simp

text \<open>
  Claim C8: every line number in a set of the mapping that \<open>get_changed_lines\<close> returns
  is a positive integer. The script does not keep this. The diff of a new file of one
  line has the hunk header \<open>@@ -0,0 +1 @@\<close>, with no count after the start; the pattern
  of the script asks for the count, so the header is passed over, the counter stays at the
  0 that the file header has set, and the added line is recorded as line 0.
\<close>

theorem get_changed_lines_records_zero:
  "get_changed_lines (join_lines
     [''diff --git a/src/a.py b/src/a.py'',
      ''new file mode 100644'',
      ''index 0000000..587be6b'',
      ''--- /dev/null'',
      ''+++ b/src/a.py'',
      ''@@ -0,0 +1 @@'',
      ''+x'']) = [(''src/a.py'', {0})]"
  by code_simp

section \<open>The log filter\<close>

text \<open>
  Claim C2, as the script has it: in a run of the filter that returns (no line of the log
  raises), a log line that matches the structured pattern and whose path contains the
  marker \<open>src/\<close> is kept if and only if the path, cut to start at the first \<open>src/\<close>,
  is a key of the changed lines and the line number is in the set of that key.
\<close>

theorem filter_logs_structured:
  assumes "log_pattern_match log = Some (path, num)"
    and "str_find (strip path) ''src/'' = Some i"
    and "filter_logs logs changed_lines = Inr out"
    and "log \<in> set logs"
  shows "log \<in> set out \<longleftrightarrow>
     (\<exists>ns. map_of changed_lines (drop i (strip path)) = Some ns \<and> int_of_digits num \<in> ns)"
proof (cases "changed_lines = []")
  case True
  with assms(3) show ?thesis by (simp add: filter_logs_def)
next
  case False
  from filter_logs_mem [OF assms(3) assms(4) False]
    log_relevant_structured [OF assms(1) assms(2), of changed_lines]
  show ?thesis by simp
qed

text \<open>
  The two scenarios of the claim, with lines 10 and 11 of \<open>src/a.py\<close> changed: the
  finding at line 10 is kept and the one at line 99 is not, and the finding under an
  absolute path is kept.
\<close>

theorem filter_logs_structured_witness:
  "filter_logs [''src/a.py:10:5: unused import'', ''src/a.py:99: other'']
     [(''src/a.py'', {10, 11})] = Inr [''src/a.py:10:5: unused import''] \<and>
   log_pattern_match ''/home/user/project/src/a.py:10: msg'' =
     Some (''/home/user/project/src/a.py'', ''10'') \<and>
   str_find (strip ''/home/user/project/src/a.py'') ''src/'' = Some 19 \<and>
   filter_logs [''/home/user/project/src/a.py:10: msg''] [(''src/a.py'', {10, 11})] =
     Inr [''/home/user/project/src/a.py:10: msg''] \<and>
   (''/home/user/project/src/a.py:10: msg'' \<in> set [''/home/user/project/src/a.py:10: msg'']
     \<longleftrightarrow> (\<exists>ns. map_of [(''src/a.py'', {10, 11})]
                   (drop 19 (strip ''/home/user/project/src/a.py'')) = Some ns \<and>
                int_of_digits ''10'' \<in> ns))"
proof -
  have a: "filter_logs [''src/a.py:10:5: unused import'', ''src/a.py:99: other'']
     [(''src/a.py'', {10, 11})] = Inr [''src/a.py:10:5: unused import'']"
    by code_simp
  have m: "log_pattern_match ''/home/user/project/src/a.py:10: msg'' =
     Some (''/home/user/project/src/a.py'', ''10'')"
    by code_simp
  have f: "str_find (strip ''/home/user/project/src/a.py'') ''src/'' = Some 19"
    by code_simp
  have r: "filter_logs [''/home/user/project/src/a.py:10: msg''] [(''src/a.py'', {10, 11})] =
     Inr [''/home/user/project/src/a.py:10: msg'']"
    by code_simp
  have i: "''/home/user/project/src/a.py:10: msg'' \<in> set [''/home/user/project/src/a.py:10: msg'']"
    by simp
  from filter_logs_structured [OF m f r i] a m f r show ?thesis
    by blast
qed

text \<open>
  Claim C2 as the specification words it, for every structured line with the marker
  whatever the rest of the log, fails: here the first line matches the pattern, its path
  is the key \<open>src/a.py\<close> and its number 10 is in the set of that key, and it is not
  kept, since the second line has no \<open>src/\<close> in its path and the run ends in ValueError
  with nothing returned.
\<close>

theorem filter_logs_structured_counterexample:
  "log_pattern_match ''src/a.py:10:5: unused import'' = Some (''src/a.py'', ''10'') \<and>
   str_find (strip ''src/a.py'') ''src/'' = Some 0 \<and>
   map_of [(''src/a.py'', {10::int, 11})] (drop 0 (strip ''src/a.py'')) = Some {10, 11} \<and>
   int_of_digits ''10'' \<in> {10, 11} \<and>
   filter_logs [''src/a.py:10:5: unused import'', ''Makefile:2: missing separator'']
     [(''src/a.py'', {10, 11})] = Inl ValueError"
  by code_simp

text \<open>
  Claim C3, as the script has it: a log line that matches the structured pattern and whose
  path does not contain \<open>src/\<close> makes the filter raise ValueError, whatever the other
  lines are, as soon as the changed lines are not empty. The run is aborted and no line is
  returned.
\<close>

theorem filter_logs_no_marker_raises:
  assumes "log_pattern_match log = Some (path, num)"
    and "str_find (strip path) ''src/'' = None"
    and "log \<in> set logs"
    and "changed_lines \<noteq> []"
  shows "filter_logs logs changed_lines = Inl ValueError"
  using assms log_relevant_no_marker [OF assms(1) assms(2), of changed_lines]
  by (auto simp: filter_logs_def filter_loop_Inl)

theorem filter_logs_no_marker_raises_witness:
  "log_pattern_match ''setup.py:7:1: missing docstring'' = Some (''setup.py'', ''7'') \<and>
   str_find (strip ''setup.py'') ''src/'' = None \<and>
   filter_logs [''black: reformatted src/b.py'', ''setup.py:7:1: missing docstring'']
     [(''src/b.py'', {3})] = Inl ValueError"
proof -
  have m: "log_pattern_match ''setup.py:7:1: missing docstring'' = Some (''setup.py'', ''7'')"
    by code_simp
  have f: "str_find (strip ''setup.py'') ''src/'' = None"
    by code_simp
  have i: "''setup.py:7:1: missing docstring'' \<in>
     set [''black: reformatted src/b.py'', ''setup.py:7:1: missing docstring'']"
    by simp
  have c: "[(''src/b.py'', {3::int})] \<noteq> []"
    by simp
  from filter_logs_no_marker_raises [OF m f i c] m f show ?thesis
    by simp
qed

text \<open>
  Claim C3 as the specification words it (the line is left out and the filter goes on to
  the remaining lines) fails: here the second line is relevant, and the first one stops
  the run before it is reached.
\<close>

theorem filter_logs_no_marker_counterexample:
  "log_pattern_match ''README.md:3: trailing whitespace'' = Some (''README.md'', ''3'') \<and>
   str_find (strip ''README.md'') ''src/'' = None \<and>
   filter_logs [''README.md:3: trailing whitespace'', ''src/a.py:10:5: unused import'']
     [(''src/a.py'', {10, 11})] = Inl ValueError \<and>
   filter_logs [''src/a.py:10:5: unused import''] [(''src/a.py'', {10, 11})] =
     Inr [''src/a.py:10:5: unused import'']"
  by code_simp

text \<open>
  Claim C4, as the script has it: in a run of the filter that returns (no line of the log
  raises), a log line that does not match the structured pattern is kept if and only if
  some key of the changed lines occurs in it as a literal substring.
\<close>

theorem filter_logs_unstructured:
  assumes "log_pattern_match log = None"
    and "filter_logs logs changed_lines = Inr out"
    and "log \<in> set logs"
  shows "log \<in> set out \<longleftrightarrow>
     (\<exists>k ps ss. k \<in> fst ` set changed_lines \<and> log = ps @ k @ ss)"
proof (cases "changed_lines = []")
  case True
  with assms(2) show ?thesis by (simp add: filter_logs_def)
next
  case False
  from filter_logs_mem [OF assms(2) assms(3) False]
    log_relevant_unstructured [OF assms(1), of changed_lines]
  show ?thesis by auto
qed

theorem filter_logs_unstructured_witness:
  "log_pattern_match ''black: reformatted src/a.py'' = None \<and>
   filter_logs [''black: reformatted src/a.py'', ''black: reformatted src/z.py'']
     [(''src/a.py'', {10, 11})] = Inr [''black: reformatted src/a.py''] \<and>
   (''black: reformatted src/a.py'' \<in> set [''black: reformatted src/a.py''] \<longleftrightarrow>
     (\<exists>k ps ss. k \<in> fst ` set [(''src/a.py'', {10::int, 11})] \<and>
        ''black: reformatted src/a.py'' = ps @ k @ ss))"
proof -
  have m: "log_pattern_match ''black: reformatted src/a.py'' = None"
    by code_simp
  have r: "filter_logs [''black: reformatted src/a.py'', ''black: reformatted src/z.py'']
     [(''src/a.py'', {10, 11})] = Inr [''black: reformatted src/a.py'']"
    by code_simp
  have i: "''black: reformatted src/a.py'' \<in>
     set [''black: reformatted src/a.py'', ''black: reformatted src/z.py'']"
    by simp
  from filter_logs_unstructured [OF m r i] m r show ?thesis
    by blast
qed

text \<open>
  Claim C4 as the specification words it, for every line that does not match the pattern
  whatever the rest of the log, fails: here the first line does not match the pattern and
  contains the key \<open>src/a.py\<close>, and it is not kept, since the second line is a
  structured one with no \<open>src/\<close> in its path and the run ends in ValueError with
  nothing returned.
\<close>

theorem filter_logs_unstructured_counterexample:
  "log_pattern_match ''black: reformatted src/a.py'' = None \<and>
   str_in ''src/a.py'' ''black: reformatted src/a.py'' \<and>
   filter_logs [''black: reformatted src/a.py'', ''tox.ini:4: unknown option'']
     [(''src/a.py'', {10, 11})] = Inl ValueError"
  by code_simp

text \<open>
  Claim C5: what the filter returns is a subsequence of its input: the lines kept stand
  in the order of the input, none is added, repeated or changed.
\<close>

theorem filter_logs_subseq:
  assumes "filter_logs logs changed_lines = Inr out"
  shows "subseq out logs"
  using filter_logs_Inr [OF assms] by (simp split: if_splits)

theorem filter_logs_subseq_witness:
  "filter_logs [''src/a.py:99: other'', ''src/a.py:11: x'', ''note'', ''src/a.py:10:5: y'']
     [(''src/a.py'', {10, 11})] = Inr [''src/a.py:11: x'', ''src/a.py:10:5: y''] \<and>
   subseq [''src/a.py:11: x'', ''src/a.py:10:5: y'']
     [''src/a.py:99: other'', ''src/a.py:11: x'', ''note'', ''src/a.py:10:5: y'']"
proof -
  have r: "filter_logs
     [''src/a.py:99: other'', ''src/a.py:11: x'', ''note'', ''src/a.py:10:5: y'']
     [(''src/a.py'', {10, 11})] = Inr [''src/a.py:11: x'', ''src/a.py:10:5: y'']"
    by code_simp
  from filter_logs_subseq [OF r] r show ?thesis
    by simp
qed

text \<open>
  Claim C6: with no changed lines the filter returns the empty sequence for every log, and
  for the empty log it returns the empty sequence for every mapping of changed lines.
\<close>

theorem filter_logs_empty:
  "filter_logs logs [] = Inr [] \<and> filter_logs [] changed_lines = Inr []"
  by (simp add: filter_logs_def)

text \<open>
  Claim C7: the filter is a function of the log and the changed lines (two runs on the
  same pair give the same output), and filtering its own output with the same changed
  lines gives that output again.
\<close>

theorem filter_logs_idempotent:
  assumes "filter_logs logs changed_lines = Inr out"
  shows "filter_logs out changed_lines = Inr out"
  using assms by (auto simp: filter_logs_def filter_loop_Inr split: if_splits)

theorem filter_logs_idempotent_witness:
  "filter_logs [''src/a.py:10: x'', ''src/a.py:12: y'', ''fixed src/a.py'']
     [(''src/a.py'', {10, 11})] = Inr [''src/a.py:10: x'', ''fixed src/a.py''] \<and>
   filter_logs [''src/a.py:10: x'', ''fixed src/a.py'']
     [(''src/a.py'', {10, 11})] = Inr [''src/a.py:10: x'', ''fixed src/a.py'']"
proof -
  have r: "filter_logs [''src/a.py:10: x'', ''src/a.py:12: y'', ''fixed src/a.py'']
     [(''src/a.py'', {10, 11})] = Inr [''src/a.py:10: x'', ''fixed src/a.py'']"
    by code_simp
  from filter_logs_idempotent [OF r] r show ?thesis
    by simp
qed

text \<open>
  Claim C10: a log line that matches the structured pattern and fails the test of the
  changed lines (its path from \<open>src/\<close> on is not a key, or its line number is not in the
  set of the key) is left out, whether or not a key occurs in it as a substring: the
  substring test is made only for lines that do not match the pattern.
\<close>

theorem filter_logs_no_fallback:
  assumes "log_pattern_match log = Some (path, num)"
    and "str_find (strip path) ''src/'' = Some i"
    and "\<nexists>ns. map_of changed_lines (drop i (strip path)) = Some ns \<and> int_of_digits num \<in> ns"
    and "filter_logs logs changed_lines = Inr out"
  shows "log \<notin> set out"
  using assms log_relevant_structured [OF assms(1) assms(2), of changed_lines]
  by (auto simp: filter_logs_def filter_loop_Inr split: if_splits)

text \<open>The line of the witness contains the key \<open>src/a.py\<close> and is left out.\<close>

theorem filter_logs_no_fallback_witness:
  "log_pattern_match ''src/a.py:99: other'' = Some (''src/a.py'', ''99'') \<and>
   str_find (strip ''src/a.py'') ''src/'' = Some 0 \<and>
   (\<nexists>ns. map_of [(''src/a.py'', {10, 11})] (drop 0 (strip ''src/a.py'')) = Some ns \<and>
      int_of_digits ''99'' \<in> ns) \<and>
   str_in ''src/a.py'' ''src/a.py:99: other'' \<and>
   filter_logs [''src/a.py:99: other''] [(''src/a.py'', {10, 11})] = Inr [] \<and>
   ''src/a.py:99: other'' \<notin> set []"
proof -
  have m: "log_pattern_match ''src/a.py:99: other'' = Some (''src/a.py'', ''99'')"
    by code_simp
  have f: "str_find (strip ''src/a.py'') ''src/'' = Some 0"
    by code_simp
  have s: "strip ''src/a.py'' = ''src/a.py''"
    by code_simp
  have d: "int_of_digits ''99'' = 99"
    by code_simp
  have n: "\<nexists>ns. map_of [(''src/a.py'', {10, 11})] (drop 0 (strip ''src/a.py'')) = Some ns \<and>
      int_of_digits ''99'' \<in> ns"
    by (simp add: s d)
  have k: "str_in ''src/a.py'' ''src/a.py:99: other''"
    by code_simp
  have r: "filter_logs [''src/a.py:99: other''] [(''src/a.py'', {10, 11})] = Inr []"
    by code_simp
  from filter_logs_no_fallback [OF m f n r] m f n k r show ?thesis
    by simp
qed

section \<open>The process\<close>

text \<open>
  Claim C9: with nothing staged the diff is empty, the extractor returns the empty
  mapping, and the process prints its message about nothing to process on standard error
  and exits with status 0; on standard output there is only the first banner, no
  filtered log.
\<close>

theorem main_nothing_staged:
  "get_changed_lines [] = [] \<and>
   main (Inr []) output_path log_file =
     \<lparr>printed = [''======== Getting changed lines =============''],
      errors = [''No staged files or changed lines to process.''],
      ending = Exit 0\<rparr>"
  by (simp add: main_def get_changed_lines_def splitlines_def)

end
